theory Spec2Isabelle
  imports Complex_Main
begin

section \<open>The momentum rebalancing bot of kz\_bot2.py\<close>

text \<open>
  The development embeds the decision logic of \<^verbatim>\<open>kz_bot2.py\<close>: the risk manager, the
  simulated market, the exchange client and one cycle of the strategy.
  A Python exception is a value of the type \<open>error\<close>; mutation of an object is
  explicit state passing. The whole program is embedded with its numbers (ints mixed with
  floats) read as real numbers, without rounding. The risk manager and the cap of the
  rebalance step, where rounding, infinities and NaN change what holds, are embedded a
  second time with floats as the program has them.
\<close>

subsection \<open>Configuration\<close>

definition INITIAL_CASH :: real where
  "INITIAL_CASH = 1000000"

definition SYMBOLS :: "string list" where
  "SYMBOLS = [''BTC/USD'', ''ETH/USD'', ''SOL/USD'']"

definition BASE_PER_PERCENT :: real where
  "BASE_PER_PERCENT = 10000"

text \<open>The two flags read from the process environment when the module is loaded.\<close>

record config =
  DRY_RUN :: bool
  FORCE_HORUS_422 :: bool

subsection \<open>Exceptions\<close>

text \<open>
  Every constructor stands for a subclass of Python's \<^verbatim>\<open>Exception\<close>: the ones the
  interpreter raises in the modelled code, and \<open>CollaboratorError\<close> for whatever a
  network collaborator (the Horus or Roostoo client) raises.
\<close>

datatype error = ZeroDivisionError | KeyError | IndexError | CollaboratorError string

text \<open>Python's \<^verbatim>\<open>a / b\<close> raises on a zero divisor.\<close>

definition py_div :: "real \<Rightarrow> real \<Rightarrow> error + real" where
  "py_div a b = (if b = 0 then Inl ZeroDivisionError else Inr (a / b))"

subsection \<open>RiskManager\<close>

record RiskManager =
  max_drawdown :: real
  max_per_asset :: real
  daily_loss_limit :: real
  peak :: real
  today_pnl :: real

definition RiskManager_init :: RiskManager where
  "RiskManager_init =
     \<lparr>max_drawdown = 10 / 100, max_per_asset = 35 / 100, daily_loss_limit = 4 / 100,
      peak = INITIAL_CASH, today_pnl = 0\<rparr>"

text \<open>
  \<open>check\<close> has three \<^verbatim>\<open>return False\<close> statements, each after its own warning, and
  one \<^verbatim>\<open>return True\<close>. The verdict says which statement returned.
\<close>

datatype verdict = Allow | VetoDrawdown | VetoConcentration | VetoDailyLoss

text \<open>
  The loop \<^verbatim>\<open>for value in positions.values()\<close>: \<open>Inr True\<close> when some value trips
  the concentration limit (the loop returns there), \<open>Inr False\<close> when the loop runs
  to its end.
\<close>

fun exposure_exceeded :: "real list \<Rightarrow> real \<Rightarrow> real \<Rightarrow> error + bool" where
  "exposure_exceeded [] total_value cap = Inr False"
| "exposure_exceeded (v # vs) total_value cap =
     (case py_div v total_value of
        Inl e \<Rightarrow> Inl e
      | Inr q \<Rightarrow> if q > cap then Inr True else exposure_exceeded vs total_value cap)"

text \<open>
  The positions dictionary is an association list in insertion order. The assignment to
  \<open>peak\<close> is the first statement, so the returned state carries it on every path,
  also when an exception leaves the method.
\<close>

definition check_verdict ::
  "real \<Rightarrow> (string \<times> real) list \<Rightarrow> RiskManager \<Rightarrow> (error + verdict) \<times> RiskManager" where
  "check_verdict total_value positions self =
     (let self' = self\<lparr>peak := max (peak self) total_value\<rparr> in
      (case py_div (peak self' - total_value) (peak self') of
         Inl e \<Rightarrow> Inl e
       | Inr dd \<Rightarrow>
           if dd > max_drawdown self' then Inr VetoDrawdown
           else (case exposure_exceeded (map snd positions) total_value (max_per_asset self') of
                   Inl e \<Rightarrow> Inl e
                 | Inr True \<Rightarrow> Inr VetoConcentration
                 | Inr False \<Rightarrow>
                     if today_pnl self' < - daily_loss_limit self' * INITIAL_CASH
                     then Inr VetoDailyLoss
                     else Inr Allow),
       self'))"

definition check ::
  "real \<Rightarrow> (string \<times> real) list \<Rightarrow> RiskManager \<Rightarrow> (error + bool) \<times> RiskManager" where
  "check total_value positions self =
     (case check_verdict total_value positions self of
        (Inl e, self') \<Rightarrow> (Inl e, self')
      | (Inr v, self') \<Rightarrow> (Inr (v = Allow), self'))"

text \<open>
  The risk manager is created once, by the bot's constructor, and only \<open>check\<close>
  touches it afterwards: these are the states a running bot can hold.
\<close>

inductive reachable :: "RiskManager \<Rightarrow> bool" where
  reachable_init: "reachable RiskManager_init"
| reachable_check: "reachable self \<Longrightarrow> reachable (snd (check total_value positions self))"

text \<open>What every such state satisfies: the limits and the daily figure are the constructor's.\<close>

definition risk_inv :: "RiskManager \<Rightarrow> bool" where
  "risk_inv self \<longleftrightarrow>
     max_drawdown self = 10 / 100 \<and> max_per_asset self = 35 / 100 \<and>
     daily_loss_limit self = 4 / 100 \<and> INITIAL_CASH \<le> peak self \<and> today_pnl self = 0"

text \<open>A run of calls to \<open>check\<close>, each with its own arguments; results are dropped.\<close>

fun checks :: "(real \<times> (string \<times> real) list) list \<Rightarrow> RiskManager \<Rightarrow> RiskManager" where
  "checks [] self = self"
| "checks ((total_value, positions) # calls) self =
     checks calls (snd (check total_value positions self))"

subsection \<open>Python floats\<close>

text \<open>
  The risk manager and the cap once more, this time with the arithmetic of the program: a
  Python float is a binary64 value, so it is a real number on the binary64 grid, an
  infinity or NaN (the sign of a zero is never observed by the code modelled here and
  is left out). An operation on finite values is the exact result rounded to the nearest
  grid point, ties to even; a result of magnitude \<open>2 ^ 1024\<close> or more after rounding is
  an infinity.

  \<open>bexp x\<close> is the binary exponent of a positive \<open>x\<close>, not below that of the
  subnormal range; the grid around \<open>x\<close> has the step \<open>2 powi (bexp x - 52)\<close>;
  \<open>rne\<close> rounds to the nearest integer, a tie to the even one; \<open>nearest x\<close> is the
  grid point next to a positive \<open>x\<close>.
\<close>

datatype pyfloat = Fin real | PInf | NInf | NaN

definition bexp :: "real \<Rightarrow> int" where
  "bexp x = max \<lfloor>log 2 x\<rfloor> (- 1022)"

definition rne :: "real \<Rightarrow> int" where
  "rne y =
     (let f = \<lfloor>y\<rfloor> in
      if y - of_int f < 1 / 2 then f
      else if 1 / 2 < y - of_int f then f + 1
      else if even f then f else f + 1)"

definition nearest :: "real \<Rightarrow> real" where
  "nearest x = of_int (rne (x / 2 powi (bexp x - 52))) * 2 powi (bexp x - 52)"

definition overflow_bound :: real where
  "overflow_bound = 2 powi 1024"

definition rndp :: "real \<Rightarrow> pyfloat" where
  "rndp x =
     (if x = 0 then Fin 0
      else if overflow_bound \<le> nearest x then PInf
      else Fin (nearest x))"

fun fneg :: "pyfloat \<Rightarrow> pyfloat" where
  "fneg (Fin x) = Fin (- x)"
| "fneg PInf = NInf"
| "fneg NInf = PInf"
| "fneg NaN = NaN"

text \<open>Rounding is symmetric: a negative number is rounded as its absolute value.\<close>

definition rnd :: "real \<Rightarrow> pyfloat" where
  "rnd x = (if x < 0 then fneg (rndp (- x)) else rndp x)"

text \<open>A value that the type float holds: a finite one is a fixed point of the rounding.\<close>

fun is_pyfloat :: "pyfloat \<Rightarrow> bool" where
  "is_pyfloat (Fin x) = (rnd x = Fin x)"
| "is_pyfloat a = True"


text \<open>
  The operators \<^verbatim>\<open>+\<close>, \<^verbatim>\<open>-\<close>, \<^verbatim>\<open>*\<close>, \<^verbatim>\<open>/\<close> and \<^verbatim>\<open>>\<close> of Python on floats. Only the division
  raises, on a divisor equal to zero, whatever the dividend is; an overflow gives an
  infinity and an undefined result NaN; a comparison with NaN is false.
\<close>

fun fadd :: "pyfloat \<Rightarrow> pyfloat \<Rightarrow> pyfloat" where
  "fadd NaN b = NaN"
| "fadd a NaN = NaN"
| "fadd PInf NInf = NaN"
| "fadd NInf PInf = NaN"
| "fadd PInf b = PInf"
| "fadd a PInf = PInf"
| "fadd NInf b = NInf"
| "fadd a NInf = NInf"
| "fadd (Fin x) (Fin y) = rnd (x + y)"

definition fsub :: "pyfloat \<Rightarrow> pyfloat \<Rightarrow> pyfloat" where
  "fsub a b = fadd a (fneg b)"

fun fmul :: "pyfloat \<Rightarrow> pyfloat \<Rightarrow> pyfloat" where
  "fmul NaN b = NaN"
| "fmul a NaN = NaN"
| "fmul (Fin x) (Fin y) = rnd (x * y)"
| "fmul (Fin x) PInf = (if x = 0 then NaN else if 0 < x then PInf else NInf)"
| "fmul (Fin x) NInf = (if x = 0 then NaN else if 0 < x then NInf else PInf)"
| "fmul PInf (Fin y) = (if y = 0 then NaN else if 0 < y then PInf else NInf)"
| "fmul NInf (Fin y) = (if y = 0 then NaN else if 0 < y then NInf else PInf)"
| "fmul PInf PInf = PInf"
| "fmul PInf NInf = NInf"
| "fmul NInf PInf = NInf"
| "fmul NInf NInf = PInf"

fun fdiv :: "pyfloat \<Rightarrow> pyfloat \<Rightarrow> error + pyfloat" where
  "fdiv a (Fin y) =
     (if y = 0 then Inl ZeroDivisionError
      else (case a of
              Fin x \<Rightarrow> Inr (rnd (x / y))
            | PInf \<Rightarrow> Inr (if 0 < y then PInf else NInf)
            | NInf \<Rightarrow> Inr (if 0 < y then NInf else PInf)
            | NaN \<Rightarrow> Inr NaN))"
| "fdiv (Fin x) b = Inr (case b of NaN \<Rightarrow> NaN | _ \<Rightarrow> Fin 0)"
| "fdiv a b = Inr NaN"

fun fgt :: "pyfloat \<Rightarrow> pyfloat \<Rightarrow> bool" where
  "fgt NaN b = False"
| "fgt a NaN = False"
| "fgt (Fin x) (Fin y) = (y < x)"
| "fgt PInf PInf = False"
| "fgt PInf b = True"
| "fgt a PInf = False"
| "fgt NInf b = False"
| "fgt a NInf = True"

text \<open>\<^verbatim>\<open>max(a, b)\<close> returns its first argument unless the second is greater.\<close>

definition fmax :: "pyfloat \<Rightarrow> pyfloat \<Rightarrow> pyfloat" where
  "fmax a b = (if fgt b a then b else a)"

text \<open>
  The floats that the literals \<^verbatim>\<open>0.10\<close>, \<^verbatim>\<open>0.35\<close> and \<^verbatim>\<open>0.04\<close> denote: the grid points
  nearest to the decimal fractions.
\<close>

definition lit_0_10 :: real where
  "lit_0_10 = 3602879701896397 / 36028797018963968"

definition lit_0_35 :: real where
  "lit_0_35 = 3152519739159347 / 9007199254740992"

definition lit_0_04 :: real where
  "lit_0_04 = 5764607523034235 / 144115188075855872"

subsection \<open>RiskManager over floats\<close>

text \<open>
  The same class and the same method as above, statement by statement, with the float
  operations in place of the exact ones. \<open>INITIAL_CASH\<close> is an int of the program; it
  is a grid point, and Python compares and combines it with a float exactly as such.
\<close>

record RiskManager_f =
  max_drawdown_f :: pyfloat
  max_per_asset_f :: pyfloat
  daily_loss_limit_f :: pyfloat
  peak_f :: pyfloat
  today_pnl_f :: pyfloat

definition RiskManager_f_init :: RiskManager_f where
  "RiskManager_f_init =
     \<lparr>max_drawdown_f = Fin lit_0_10, max_per_asset_f = Fin lit_0_35,
      daily_loss_limit_f = Fin lit_0_04, peak_f = Fin INITIAL_CASH, today_pnl_f = Fin 0\<rparr>"

fun exposure_exceeded_f :: "pyfloat list \<Rightarrow> pyfloat \<Rightarrow> pyfloat \<Rightarrow> error + bool" where
  "exposure_exceeded_f [] total_value cap = Inr False"
| "exposure_exceeded_f (v # vs) total_value cap =
     (case fdiv v total_value of
        Inl e \<Rightarrow> Inl e
      | Inr q \<Rightarrow> if fgt q cap then Inr True else exposure_exceeded_f vs total_value cap)"

definition check_verdict_f ::
  "pyfloat \<Rightarrow> (string \<times> pyfloat) list \<Rightarrow> RiskManager_f \<Rightarrow> (error + verdict) \<times> RiskManager_f" where
  "check_verdict_f total_value positions self =
     (let self' = self\<lparr>peak_f := fmax (peak_f self) total_value\<rparr> in
      (case fdiv (fsub (peak_f self') total_value) (peak_f self') of
         Inl e \<Rightarrow> Inl e
       | Inr dd \<Rightarrow>
           if fgt dd (max_drawdown_f self') then Inr VetoDrawdown
           else (case exposure_exceeded_f (map snd positions) total_value (max_per_asset_f self') of
                   Inl e \<Rightarrow> Inl e
                 | Inr True \<Rightarrow> Inr VetoConcentration
                 | Inr False \<Rightarrow>
                     if fgt (fmul (fneg (daily_loss_limit_f self')) (Fin INITIAL_CASH))
                          (today_pnl_f self')
                     then Inr VetoDailyLoss
                     else Inr Allow),
       self'))"

definition check_f ::
  "pyfloat \<Rightarrow> (string \<times> pyfloat) list \<Rightarrow> RiskManager_f \<Rightarrow> (error + bool) \<times> RiskManager_f" where
  "check_f total_value positions self =
     (case check_verdict_f total_value positions self of
        (Inl e, self') \<Rightarrow> (Inl e, self')
      | (Inr v, self') \<Rightarrow> (Inr (v = Allow), self'))"

text \<open>
  The states of the risk manager of a running bot, when every total value it is given is a
  float, and what they all satisfy.
\<close>

inductive reachable_f :: "RiskManager_f \<Rightarrow> bool" where
  reachable_f_init: "reachable_f RiskManager_f_init"
| reachable_f_check:
    "reachable_f self \<Longrightarrow> is_pyfloat total_value \<Longrightarrow>
     reachable_f (snd (check_f total_value positions self))"

definition risk_inv_f :: "RiskManager_f \<Rightarrow> bool" where
  "risk_inv_f self \<longleftrightarrow>
     max_drawdown_f self = Fin lit_0_10 \<and> max_per_asset_f self = Fin lit_0_35 \<and>
     daily_loss_limit_f self = Fin lit_0_04 \<and> today_pnl_f self = Fin 0 \<and>
     (peak_f self = PInf \<or> (\<exists>p. peak_f self = Fin p \<and> INITIAL_CASH \<le> p \<and> rnd p = Fin p))"

subsection \<open>MockMarket\<close>

text \<open>
  The two price dictionaries are association lists in insertion order. \<open>draws\<close> is not
  a field of the class: it counts the calls to \<^verbatim>\<open>random.uniform\<close> made so far, that
  is, the position in the stream of draws that the collaborators record supplies.
\<close>

record MockMarket =
  prices :: "(string \<times> real) list"
  prev_prices :: "(string \<times> real) list"
  draws :: nat

definition MockMarket_init :: MockMarket where
  "MockMarket_init =
     \<lparr>prices = [(''BTC/USD'', 68000), (''ETH/USD'', 3500), (''SOL/USD'', 180)],
      prev_prices = [(''BTC/USD'', 68000), (''ETH/USD'', 3500), (''SOL/USD'', 180)],
      draws = 0\<rparr>"

text \<open>Subscripting a dictionary raises \<^verbatim>\<open>KeyError\<close> on a missing key.\<close>

definition dict_get :: "(string \<times> real) list \<Rightarrow> string \<Rightarrow> error + real" where
  "dict_get d k = (case map_of d k of None \<Rightarrow> Inl KeyError | Some v \<Rightarrow> Inr v)"

text \<open>
  The loop of \<open>update\<close>: every symbol of the dictionary, in order, is multiplied by
  one plus its own fresh draw.
\<close>

fun perturb :: "(nat \<Rightarrow> real) \<Rightarrow> nat \<Rightarrow> (string \<times> real) list \<Rightarrow> (string \<times> real) list" where
  "perturb uniform k [] = []"
| "perturb uniform k ((symbol, p) # rest) =
     (symbol, p * (1 + uniform k)) # perturb uniform (Suc k) rest"

definition update :: "(nat \<Rightarrow> real) \<Rightarrow> MockMarket \<Rightarrow> MockMarket" where
  "update uniform self =
     self\<lparr>prev_prices := prices self,
          prices := perturb uniform (draws self) (prices self),
          draws := draws self + length (prices self)\<rparr>"

definition get_price :: "MockMarket \<Rightarrow> string \<Rightarrow> error + real" where
  "get_price self symbol = dict_get (prices self) symbol"

definition get_return :: "MockMarket \<Rightarrow> string \<Rightarrow> error + real" where
  "get_return self symbol =
     (case dict_get (prices self) symbol of
        Inl e \<Rightarrow> Inl e
      | Inr p \<Rightarrow>
          (case dict_get (prev_prices self) symbol of
             Inl e \<Rightarrow> Inl e
           | Inr q \<Rightarrow> (case py_div p q of Inl e \<Rightarrow> Inl e | Inr r \<Rightarrow> Inr (r - 1))))"

subsection \<open>Collaborators\<close>

text \<open>
  What the program takes from outside, for one cycle:
  \<^item> \<open>uniform k\<close>, the k-th value drawn by \<^verbatim>\<open>random.uniform(-0.01, 0.01)\<close>;
  \<^item> the two methods of the Horus client that the bot calls (the module
    \<^verbatim>\<open>horus_client\<close> is imported but is not part of the sources): the latest price
    of an asset, and the closes of the most recent candles of a pair;
  \<^item> the answers of the Roostoo HTTP interface behind \<^verbatim>\<open>_sign_and_request\<close>: for the
    balance endpoint an exception, an empty answer or a parsed answer, for the order
    endpoint an exception or an acknowledgement.
\<close>

record balance_response =
  Success :: bool
  Wallet :: "(string \<times> real option) list"

record env =
  uniform :: "nat \<Rightarrow> real"
  get_latest_price :: "string \<Rightarrow> error + real"
  get_market_price :: "string \<Rightarrow> error + real list"
  request_balance :: "error + balance_response option"
  request_place_order :: "string \<Rightarrow> string \<Rightarrow> real \<Rightarrow> error + unit"

text \<open>
  \<^verbatim>\<open>RoostooClient.get_balance\<close>: the free amount of every coin of the wallet (0 when the
  entry has none); the empty dictionary on an unsuccessful or missing answer and on
  any exception.
\<close>

definition RoostooClient_get_balance :: "env \<Rightarrow> (string \<rightharpoonup> real)" where
  "RoostooClient_get_balance env =
     (case request_balance env of
        Inl e \<Rightarrow> Map.empty
      | Inr None \<Rightarrow> Map.empty
      | Inr (Some resp) \<Rightarrow>
          if Success resp
          then map_of (map (\<lambda>(coin, free). (coin, case free of None \<Rightarrow> 0 | Some v \<Rightarrow> v))
                        (Wallet resp))
          else Map.empty)"

subsection \<open>ExchangeClient\<close>

text \<open>\<^verbatim>\<open>symbol.split("/")[0]\<close> and \<^verbatim>\<open>sym.replace("/", "")\<close>.\<close>

definition asset_of :: "string \<Rightarrow> string" where
  "asset_of symbol = takeWhile (\<lambda>c. c \<noteq> CHR ''/'') symbol"

definition pair_of :: "string \<Rightarrow> string" where
  "pair_of symbol = filter (\<lambda>c. c \<noteq> CHR ''/'') symbol"

definition fetch_price ::
  "config \<Rightarrow> env \<Rightarrow> string \<Rightarrow> MockMarket \<Rightarrow> (error + real) \<times> MockMarket" where
  "fetch_price cfg env symbol m =
     (if FORCE_HORUS_422 cfg
      then (let m' = update (uniform env) m in (get_price m' symbol, m'))
      else (case get_latest_price env (asset_of symbol) of
              Inr p \<Rightarrow> (Inr p, m)
            | Inl e \<Rightarrow> (let m' = update (uniform env) m in (get_price m' symbol, m'))))"

definition get_balance :: "config \<Rightarrow> env \<Rightarrow> (string \<rightharpoonup> real)" where
  "get_balance cfg env =
     (if DRY_RUN cfg
      then [''USD'' \<mapsto> 500000, ''BTC'' \<mapsto> 2, ''ETH'' \<mapsto> 15, ''SOL'' \<mapsto> 200]
      else RoostooClient_get_balance env)"

text \<open>
  The lines the program writes to its log that record a decision: a simulated order, an
  order accepted by the venue, an order the venue refused, a cycle paused by the risk
  manager, and the exception caught at the end of \<open>step\<close>. An order carries its
  symbol, its side and its quantity.
\<close>

datatype event =
    DryOrder string string real
  | LiveOrder string string real
  | OrderFailed string error
  | Paused
  | StepError error

definition place_order :: "config \<Rightarrow> env \<Rightarrow> string \<Rightarrow> string \<Rightarrow> real \<Rightarrow> event list" where
  "place_order cfg env symbol side amount =
     (if amount = 0 then []
      else if DRY_RUN cfg then [DryOrder symbol side \<bar>amount\<bar>]
      else (case request_place_order env symbol side \<bar>amount\<bar> of
              Inr ack \<Rightarrow> [LiveOrder symbol side \<bar>amount\<bar>]
            | Inl e \<Rightarrow> [OrderFailed symbol e]))"

subsection \<open>DynamicMomentumBot\<close>

record bot =
  risk :: RiskManager
  mock :: MockMarket
  logged :: "event list"

definition bot_init :: bot where
  "bot_init = \<lparr>risk = RiskManager_init, mock = MockMarket_init, logged = []\<rparr>"

text \<open>Part 1 of \<open>step\<close>: the dictionary comprehension over the symbols, left to right.\<close>

fun fetch_prices ::
  "config \<Rightarrow> env \<Rightarrow> string list \<Rightarrow> MockMarket \<Rightarrow> (error + (string \<times> real) list) \<times> MockMarket" where
  "fetch_prices cfg env [] m = (Inr [], m)"
| "fetch_prices cfg env (symbol # symbols) m =
     (case fetch_price cfg env symbol m of
        (Inl e, m') \<Rightarrow> (Inl e, m')
      | (Inr p, m') \<Rightarrow>
          (case fetch_prices cfg env symbols m' of
             (Inl e, m'') \<Rightarrow> (Inl e, m'')
           | (Inr ps, m'') \<Rightarrow> (Inr ((symbol, p) # ps), m'')))"

text \<open>Part 2: \<^verbatim>\<open>balance.get(asset, 0)\<close> and the position values.\<close>

definition balance_get :: "(string \<rightharpoonup> real) \<Rightarrow> string \<Rightarrow> real" where
  "balance_get balance k = (case balance k of None \<Rightarrow> 0 | Some v \<Rightarrow> v)"

fun positions_of ::
  "(string \<rightharpoonup> real) \<Rightarrow> (string \<times> real) list \<Rightarrow> string list \<Rightarrow> error + (string \<times> real) list" where
  "positions_of balance prices' [] = Inr []"
| "positions_of balance prices' (symbol # symbols) =
     (case dict_get prices' symbol of
        Inl e \<Rightarrow> Inl e
      | Inr p \<Rightarrow>
          (case positions_of balance prices' symbols of
             Inl e \<Rightarrow> Inl e
           | Inr ps \<Rightarrow> Inr ((symbol, balance_get balance (asset_of symbol) * p) # ps)))"

text \<open>
  Part 4: the return of one symbol. In forced-fallback mode it is the simulator's return
  and an exception propagates; otherwise any exception of the inner \<^verbatim>\<open>try\<close> (the
  request, a missing candle, a zero close) gives the return 0.
\<close>

definition momentum_ret :: "config \<Rightarrow> env \<Rightarrow> MockMarket \<Rightarrow> string \<Rightarrow> error + real" where
  "momentum_ret cfg env m symbol =
     (if FORCE_HORUS_422 cfg then get_return m symbol
      else (case get_market_price env (pair_of symbol) of
              Inl e \<Rightarrow> Inr 0
            | Inr data \<Rightarrow>
                (case data of
                   c0 # c1 # rest \<Rightarrow> (case py_div c0 c1 of Inl e \<Rightarrow> Inr 0 | Inr q \<Rightarrow> Inr (q - 1))
                 | _ \<Rightarrow> Inr 0)))"

definition momentum_target :: "real \<Rightarrow> real \<Rightarrow> real" where
  "momentum_target current_usd ret = current_usd + ret * BASE_PER_PERCENT * 100"

fun momentum_targets ::
  "config \<Rightarrow> env \<Rightarrow> MockMarket \<Rightarrow> (string \<times> real) list \<Rightarrow> string list \<Rightarrow>
   error + (string \<times> real) list" where
  "momentum_targets cfg env m positions [] = Inr []"
| "momentum_targets cfg env m positions (symbol # symbols) =
     (case momentum_ret cfg env m symbol of
        Inl e \<Rightarrow> Inl e
      | Inr ret \<Rightarrow>
          (case dict_get positions symbol of
             Inl e \<Rightarrow> Inl e
           | Inr current_usd \<Rightarrow>
               (case momentum_targets cfg env m positions symbols of
                  Inl e \<Rightarrow> Inl e
                | Inr ts \<Rightarrow> Inr ((symbol, momentum_target current_usd ret) # ts))))"

text \<open>The log line of part 4 evaluates the simulator's return of every symbol.\<close>

fun logged_returns :: "MockMarket \<Rightarrow> string list \<Rightarrow> error + real list" where
  "logged_returns m [] = Inr []"
| "logged_returns m (s # ss) =
     (case get_return m s of
        Inl e \<Rightarrow> Inl e
      | Inr r \<Rightarrow> (case logged_returns m ss of Inl e \<Rightarrow> Inl e | Inr rs \<Rightarrow> Inr (r # rs)))"

text \<open>Part 5: the cap, then the dead-band, then the order of one symbol.\<close>

definition cap_diff :: "real \<Rightarrow> real \<Rightarrow> real \<Rightarrow> real" where
  "cap_diff total_value current_usd diff_usd =
     (if current_usd + diff_usd > total_value * (35 / 100)
      then total_value * (35 / 100) - current_usd
      else diff_usd)"


definition rebalance_sym ::
  "config \<Rightarrow> env \<Rightarrow> real \<Rightarrow> (string \<times> real) list \<Rightarrow> (string \<times> real) list \<Rightarrow>
   string \<Rightarrow> real \<Rightarrow> error + event list" where
  "rebalance_sym cfg env total_value prices' positions symbol target_usd =
     (case dict_get positions symbol of
        Inl e \<Rightarrow> Inl e
      | Inr current_usd \<Rightarrow>
          (let diff_usd = cap_diff total_value current_usd (target_usd - current_usd) in
           if \<bar>diff_usd\<bar> > 500
           then (case dict_get prices' symbol of
                   Inl e \<Rightarrow> Inl e
                 | Inr price \<Rightarrow>
                     (case py_div diff_usd price of
                        Inl e \<Rightarrow> Inl e
                      | Inr amount \<Rightarrow>
                          Inr (place_order cfg env symbol
                                 (if amount > 0 then ''buy'' else ''sell'') amount)))
           else Inr []))"

text \<open>
  The loop over the targets. The events of the symbols handled before an exception stay
  in the log.
\<close>

fun rebalance ::
  "config \<Rightarrow> env \<Rightarrow> real \<Rightarrow> (string \<times> real) list \<Rightarrow> (string \<times> real) list \<Rightarrow>
   (string \<times> real) list \<Rightarrow> (error + unit) \<times> event list" where
  "rebalance cfg env total_value prices' positions [] = (Inr (), [])"
| "rebalance cfg env total_value prices' positions ((symbol, target_usd) # rest) =
     (case rebalance_sym cfg env total_value prices' positions symbol target_usd of
        Inl e \<Rightarrow> (Inl e, [])
      | Inr evs \<Rightarrow>
          (case rebalance cfg env total_value prices' positions rest of
             (r, evs') \<Rightarrow> (r, evs @ evs')))"

text \<open>
  The body of the \<^verbatim>\<open>try\<close> block of \<open>step\<close>: \<open>Inl e\<close> when the exception \<open>e\<close>
  leaves the block, with the state as the statements before it left it.
\<close>

definition step_body :: "config \<Rightarrow> env \<Rightarrow> bot \<Rightarrow> (error + unit) \<times> bot" where
  "step_body cfg env self =
     (case fetch_prices cfg env SYMBOLS (mock self) of
        (Inl e, m) \<Rightarrow> (Inl e, self\<lparr>mock := m\<rparr>)
      | (Inr prices', m) \<Rightarrow>
          (let self1 = self\<lparr>mock := m\<rparr>;
               balance = get_balance cfg env;
               usd = balance_get balance ''USD''
           in case positions_of balance prices' SYMBOLS of
                Inl e \<Rightarrow> (Inl e, self1)
              | Inr positions \<Rightarrow>
                  (let total_value = usd + sum_list (map snd positions) in
                   case check total_value positions (risk self1) of
                     (Inl e, r) \<Rightarrow> (Inl e, self1\<lparr>risk := r\<rparr>)
                   | (Inr False, r) \<Rightarrow> (Inr (), self1\<lparr>risk := r, logged := logged self1 @ [Paused]\<rparr>)
                   | (Inr True, r) \<Rightarrow>
                       (let self2 = self1\<lparr>risk := r\<rparr> in
                        case momentum_targets cfg env m positions SYMBOLS of
                          Inl e \<Rightarrow> (Inl e, self2)
                        | Inr targets \<Rightarrow>
                            (case logged_returns m SYMBOLS of
                               Inl e \<Rightarrow> (Inl e, self2)
                             | Inr rs \<Rightarrow>
                                 (case rebalance cfg env total_value prices' positions targets of
                                    (r, evs) \<Rightarrow> (r, self2\<lparr>logged := logged self2 @ evs\<rparr>)))))))"

text \<open>
  \<open>step\<close>: the handler \<^verbatim>\<open>except Exception\<close> logs what left the body, and the method
  returns. The first component is how \<open>step\<close> ends for its caller.
\<close>

definition step :: "config \<Rightarrow> env \<Rightarrow> bot \<Rightarrow> (error + unit) \<times> bot" where
  "step cfg env self =
     (case step_body cfg env self of
        (Inl e, self') \<Rightarrow> (Inr (), self'\<lparr>logged := logged self' @ [StepError e]\<rparr>)
      | (Inr u, self') \<Rightarrow> (Inr u, self'))"

text \<open>
  \<open>run\<close> never leaves its loop by itself, so it is cut after as many cycles as there
  are collaborator records, one for each cycle. An exception out of \<open>step\<close> would end
  the loop at once.
\<close>

fun run :: "config \<Rightarrow> env list \<Rightarrow> bot \<Rightarrow> (error + nat) \<times> bot" where
  "run cfg [] self = (Inr 0, self)"
| "run cfg (env # envs) self =
     (case step cfg env self of
        (Inl e, self') \<Rightarrow> (Inl e, self')
      | (Inr u, self') \<Rightarrow>
          (case run cfg envs self' of
             (Inl e, self'') \<Rightarrow> (Inl e, self'')
           | (Inr n, self'') \<Rightarrow> (Inr (Suc n), self'')))"

text \<open>The states of a running bot: the constructor's state, then one cycle after another.\<close>

inductive bot_reachable :: "config \<Rightarrow> bot \<Rightarrow> bool" where
  bot_reachable_init: "bot_reachable cfg bot_init"
| bot_reachable_step: "bot_reachable cfg self \<Longrightarrow> bot_reachable cfg (snd (step cfg env self))"

subsection \<open>Sample inputs\<close>

text \<open>
  Concrete settings and collaborators, for evaluating the definitions: the forced-fallback
  dry run; the live setting; collaborators that all fail, with every draw equal to 0.01;
  collaborators that all answer, with Horus quoting 68,000 for every asset and closes
  of 101 and 100 for every pair; and the same with Horus quoting 0 for every asset.
\<close>

definition cfg_forced :: config where
  "cfg_forced = \<lparr>DRY_RUN = True, FORCE_HORUS_422 = True\<rparr>"

definition cfg_live :: config where
  "cfg_live = \<lparr>DRY_RUN = False, FORCE_HORUS_422 = False\<rparr>"

definition env_offline :: env where
  "env_offline =
     \<lparr>uniform = (\<lambda>k. 1 / 100),
      get_latest_price = (\<lambda>asset. Inl (CollaboratorError ''timeout'')),
      get_market_price = (\<lambda>pair. Inl (CollaboratorError ''timeout'')),
      request_balance = Inl (CollaboratorError ''timeout''),
      request_place_order = (\<lambda>symbol side quantity. Inl (CollaboratorError ''timeout''))\<rparr>"

definition env_online :: env where
  "env_online =
     \<lparr>uniform = (\<lambda>k. 1 / 100),
      get_latest_price = (\<lambda>asset. Inr 68000),
      get_market_price = (\<lambda>pair. Inr [101, 100]),
      request_balance =
        Inr (Some \<lparr>Success = True, Wallet = [(''USD'', Some 1000000), (''BTC'', Some 2)]\<rparr>),
      request_place_order = (\<lambda>symbol side quantity. Inr ())\<rparr>"

definition env_zero_quote :: env where
  "env_zero_quote =
     \<lparr>uniform = (\<lambda>k. 1 / 100),
      get_latest_price = (\<lambda>asset. Inr 0),
      get_market_price = (\<lambda>pair. Inr [101, 100]),
      request_balance =
        Inr (Some \<lparr>Success = True, Wallet = [(''USD'', Some 1000000), (''BTC'', Some 2)]\<rparr>),
      request_place_order = (\<lambda>symbol side quantity. Inr ())\<rparr>"





subsection \<open>Facts about the risk manager\<close>

lemma snd_check_verdict:
  "snd (check_verdict total_value positions self) = self\<lparr>peak := max (peak self) total_value\<rparr>"
  by (simp add: check_verdict_def Let_def)

lemma snd_check:
  "snd (check total_value positions self) = self\<lparr>peak := max (peak self) total_value\<rparr>"
proof -
  obtain r s where rs: "check_verdict total_value positions self = (r, s)"
    by (cases "check_verdict total_value positions self")
  with snd_check_verdict [of total_value positions self]
  have "s = self\<lparr>peak := max (peak self) total_value\<rparr>" by simp
  with rs show ?thesis by (cases r) (simp_all add: check_def)
qed

lemma reachable_inv: "reachable self \<Longrightarrow> risk_inv self"
proof (induction rule: reachable.induct)
  case reachable_init
  show ?case by (simp add: risk_inv_def RiskManager_init_def)
next
  case (reachable_check self total_value positions)
  then show ?case by (simp add: snd_check risk_inv_def le_max_iff_disj)
qed

lemma peak_init: "peak RiskManager_init = 1000000"
  by (simp add: RiskManager_init_def INITIAL_CASH_def)

lemma reachable_peak_pos: "reachable self \<Longrightarrow> 0 < peak self"
  using reachable_inv [of self] by (simp add: risk_inv_def INITIAL_CASH_def)

lemma exposure_exceeded_True:
  "total_value \<noteq> 0 \<Longrightarrow>
   exposure_exceeded vs total_value cap = Inr (\<exists>v \<in> set vs. v / total_value > cap)"
  by (induction vs) (auto simp: py_div_def)

lemma drawdown_iff:
  fixes p t :: real
  assumes "0 < p"
  shows "(p - t) / p > 10 / 100 \<longleftrightarrow> t < p * (9 / 10)"
  using assms by (simp add: field_simps)

text \<open>What \<open>check\<close> computes from a reachable state, gate by gate.\<close>

lemma check_verdict_reachable:
  assumes "reachable self"
  shows "fst (check_verdict total_value positions self) =
     (if (max (peak self) total_value - total_value) / max (peak self) total_value > 10 / 100
      then Inr VetoDrawdown
      else if \<exists>v \<in> set (map snd positions). v / total_value > 35 / 100
      then Inr VetoConcentration
      else Inr Allow)"
proof -
  define p where "p = max (peak self) total_value"
  have inv: "risk_inv self" using assms by (rule reachable_inv)
  have md: "max_drawdown self = 10 / 100" and mp: "max_per_asset self = 35 / 100"
    and dl: "daily_loss_limit self = 4 / 100" and pnl: "today_pnl self = 0"
    using inv by (simp_all add: risk_inv_def)
  have ppos: "0 < p" using reachable_peak_pos [OF assms] by (simp add: p_def less_max_iff_disj)
  have nodaily: "\<not> (0 < - (4 / 100) * INITIAL_CASH)" by (simp add: INITIAL_CASH_def)
  show ?thesis
  proof (cases "(p - total_value) / p > 10 / 100")
    case True
    with ppos show ?thesis
      unfolding check_verdict_def Let_def py_div_def p_def [symmetric]
      by (simp add: md p_def [symmetric])
  next
    case False
    with drawdown_iff [OF ppos, of total_value] have "p * (9 / 10) \<le> total_value" by simp
    moreover have "0 < p * (9 / 10)" using ppos by simp
    ultimately have "0 < total_value" by linarith
    then have tv: "total_value \<noteq> 0" by simp
    from False ppos show ?thesis
      unfolding check_verdict_def Let_def py_div_def
      by (simp add: md mp dl pnl p_def [symmetric] exposure_exceeded_True [OF tv]
            INITIAL_CASH_def)
  qed
qed

lemma fst_check_reachable:
  assumes "reachable self"
  shows "fst (check total_value positions self) =
     Inr (\<not> (max (peak self) total_value - total_value) / max (peak self) total_value > 10 / 100
          \<and> \<not> (\<exists>v \<in> set (map snd positions). v / total_value > 35 / 100))"
proof -
  obtain r s where rs: "check_verdict total_value positions self = (r, s)"
    by (cases "check_verdict total_value positions self")
  with check_verdict_reachable [OF assms, of total_value positions]
  have r: "r =
     (if (max (peak self) total_value - total_value) / max (peak self) total_value > 10 / 100
      then Inr VetoDrawdown
      else if \<exists>v \<in> set (map snd positions). v / total_value > 35 / 100
      then Inr VetoConcentration
      else Inr Allow)" by simp
  show ?thesis using rs unfolding check_def r by (simp split: if_splits)
qed

lemma checks_peak_mono: "peak self \<le> peak (checks calls self)"
proof (induction calls arbitrary: self)
  case Nil
  show ?case by simp
next
  case (Cons c calls)
  obtain total_value positions where c: "c = (total_value, positions)" by (cases c)
  have "peak self \<le> peak (snd (check total_value positions self))"
    by (simp add: snd_check)
  also have "\<dots> \<le> peak (checks calls (snd (check total_value positions self)))"
    by (rule Cons.IH)
  finally show ?case by (simp add: c)
qed

lemma checks_reachable: "reachable self \<Longrightarrow> reachable (checks calls self)"
proof (induction calls arbitrary: self)
  case Nil
  then show ?case by simp
next
  case (Cons c calls)
  obtain total_value positions where c: "c = (total_value, positions)" by (cases c)
  from Cons.prems have "reachable (snd (check total_value positions self))"
    by (rule reachable_check)
  then show ?case unfolding c by (simp add: Cons.IH)
qed

lemma step_body_risk:
  "risk (snd (step_body cfg env self)) = risk self \<or>
   (\<exists>total_value positions. risk (snd (step_body cfg env self)) = snd (check total_value positions (risk self)))"
  unfolding step_body_def Let_def
  by (auto split: prod.splits sum.splits bool.splits; metis snd_conv)

lemma step_risk_body: "risk (snd (step cfg env self)) = risk (snd (step_body cfg env self))"
  unfolding step_def by (simp split: prod.splits sum.splits)

lemma step_risk:
  "risk (snd (step cfg env self)) = risk self \<or>
   (\<exists>total_value positions. risk (snd (step cfg env self)) = snd (check total_value positions (risk self)))"
  unfolding step_risk_body by (rule step_body_risk)

lemma step_reachable: "reachable (risk self) \<Longrightarrow> reachable (risk (snd (step cfg env self)))"
  using step_risk [of cfg env self] by (auto intro: reachable_check)

lemma bot_reachable_risk: "bot_reachable cfg self \<Longrightarrow> reachable (risk self)"
proof (induction rule: bot_reachable.induct)
  case (bot_reachable_init cfg)
  show ?case by (simp add: bot_init_def reachable_init)
next
  case (bot_reachable_step cfg self env)
  from bot_reachable_step.IH show ?case by (rule step_reachable)
qed

subsection \<open>Facts about rounding\<close>


lemma rne_lower: "of_int (rne y) \<ge> y - 1 / 2"
  unfolding rne_def Let_def by (auto; linarith)




lemma rne_near: "\<bar>y - of_int n\<bar> < 1 / 2 \<Longrightarrow> rne y = n"
proof -
  assume a: "\<bar>y - of_int n\<bar> < 1 / 2"
  show ?thesis
  proof (cases "of_int n \<le> y")
    case True
    with a have "\<lfloor>y\<rfloor> = n" by (intro floor_unique) (auto simp: abs_if split: if_splits)
    with a True show ?thesis by (simp add: rne_def Let_def abs_if split: if_splits)
  next
    case False
    with a have f: "\<lfloor>y\<rfloor> = n - 1" by (intro floor_unique) (auto simp: abs_if split: if_splits)
    from a False have "1 / 2 < y - of_int (n - 1)" by (simp add: abs_if split: if_splits)
    with f show ?thesis by (simp add: rne_def Let_def)
  qed
qed

lemma bexp_eqI:
  assumes "2 powr of_int e \<le> x" and "x < 2 powr of_int (e + 1)" and "- 1022 \<le> e"
  shows "bexp x = e"
proof -
  have xpos: "0 < x" using assms(1) by (smt (verit) powr_gt_zero)
  have "of_int e \<le> log 2 x" using assms(1) xpos by (simp add: le_log_iff)
  moreover have "log 2 x < of_int (e + 1)" using assms(2) xpos by (simp add: log_less_iff)
  ultimately have "\<lfloor>log 2 x\<rfloor> = e" by (intro floor_unique) auto
  with assms(3) show ?thesis by (simp add: bexp_def)
qed

lemma powi_powr: "(2 :: real) powi k = 2 powr of_int k"
  by (simp add: powr_real_of_int')

lemma powi_add2: "(2 :: real) powi (a + b) = 2 powi a * 2 powi b"
  by (simp add: power_int_add)

lemma powi_shift: "(2 :: real) powi (e + 1) = 2 powi 53 * 2 powi (e - 52)"
  using powi_add2 [of 53 "e - 52"] by (simp add: algebra_simps)

lemma powi_pos: "0 < (2 :: real) powi k"
  by (simp add: powi_powr)

lemma rndp_eqI:
  assumes "2 powi e \<le> x" and "x < 2 powi (e + 1)" and "- 1022 \<le> e" and "e \<le> 1022"
    and "\<bar>x / 2 powi (e - 52) - of_int n\<bar> < 1 / 2"
  shows "rndp x = Fin (of_int n * 2 powi (e - 52))"
proof -
  let ?u = "(2 :: real) powi (e - 52)"
  have upos: "0 < ?u" by (rule powi_pos)
  have xpos: "0 < x" using assms(1) powi_pos [of e] by linarith
  have b: "bexp x = e" using assms(1-3) by (intro bexp_eqI) (simp_all add: powi_powr)
  have r: "rne (x / ?u) = n" using assms(5) by (rule rne_near)
  have "x / ?u < 2 powi 53"
  proof -
    from assms(2) upos show ?thesis unfolding powi_shift by (simp add: field_simps)
  qed
  with assms(5) have "of_int n < (2 :: real) powi 53 + 1 / 2" by linarith
  then have "of_int n < (9007199254740992 :: real) + 1 / 2" by simp
  then have "n \<le> 9007199254740992" by linarith
  then have "(of_int n :: real) \<le> 2 powi 53" by simp
  then have "of_int n * ?u \<le> 2 powi 53 * ?u" using upos by simp
  also have "\<dots> = 2 powi (e + 1)" by (simp only: powi_shift)
  also have "\<dots> \<le> 2 powi 1023" using assms(4) by (intro power_int_increasing) auto
  also have "\<dots> < (2 :: real) powi 1024" by (intro power_int_strict_increasing) auto
  finally have "\<not> overflow_bound \<le> of_int n * ?u" by (simp add: overflow_bound_def)
  with xpos show ?thesis unfolding rndp_def nearest_def b r by simp
qed


lemma rnd_1000000: "rnd 1000000 = Fin 1000000"
  using rndp_eqI [of 19 1000000 "1000000 * 2 ^ 33"] by (simp add: rnd_def)











lemma rndp_not_NaN: "rndp x \<noteq> NaN" and rndp_not_NInf: "rndp x \<noteq> NInf"
  by (simp_all add: rndp_def Let_def)




















lemma lit_0_10: "rnd (10 / 100) = Fin lit_0_10"
  using rndp_eqI [of "-4" "1 / 10" 7205759403792794] by (simp add: rnd_def lit_0_10_def)

lemma lit_0_35: "rnd (35 / 100) = Fin lit_0_35"
  using rndp_eqI [of "-2" "35 / 100" 6305039478318694] by (simp add: rnd_def lit_0_35_def)

lemma lit_0_04: "rnd (4 / 100) = Fin lit_0_04"
  using rndp_eqI [of "-5" "4 / 100" 5764607523034235] by (simp add: rnd_def lit_0_04_def)

subsection \<open>Facts about the risk manager over floats\<close>

lemma snd_check_verdict_f:
  "snd (check_verdict_f total_value positions self) =
     self\<lparr>peak_f := fmax (peak_f self) total_value\<rparr>"
  by (simp add: check_verdict_f_def Let_def)

lemma snd_check_f:
  "snd (check_f total_value positions self) = self\<lparr>peak_f := fmax (peak_f self) total_value\<rparr>"
proof -
  obtain r s where rs: "check_verdict_f total_value positions self = (r, s)"
    by (cases "check_verdict_f total_value positions self")
  with snd_check_verdict_f [of total_value positions self]
  have "s = self\<lparr>peak_f := fmax (peak_f self) total_value\<rparr>" by simp
  with rs show ?thesis by (cases r) (simp_all add: check_f_def)
qed

lemma fmax_PInf: "fmax PInf b = PInf"
  by (cases b) (simp_all add: fmax_def)

lemma fmax_Fin:
  "fmax (Fin p) b = (case b of Fin t \<Rightarrow> Fin (max p t) | PInf \<Rightarrow> PInf | _ \<Rightarrow> Fin p)"
  by (cases b) (auto simp: fmax_def max_def)

lemma reachable_f_inv: "reachable_f self \<Longrightarrow> risk_inv_f self"
proof (induction rule: reachable_f.induct)
  case reachable_f_init
  show ?case
    using rnd_1000000 by (simp add: risk_inv_f_def RiskManager_f_init_def INITIAL_CASH_def)
next
  case (reachable_f_check self total_value positions)
  then show ?case
    unfolding snd_check_f risk_inv_f_def
    by (cases total_value) (auto simp: fmax_PInf fmax_Fin max_def)
qed

lemma fdiv_error_iff: "fdiv a b = Inl e \<longleftrightarrow> b = Fin 0 \<and> e = ZeroDivisionError"
  by (cases a; cases b) auto

lemma fdiv_no_error: "b \<noteq> Fin 0 \<Longrightarrow> \<exists>q. fdiv a b = Inr q"
  using fdiv_error_iff [of a b] by (cases "fdiv a b") auto


lemma reachable_f_peak_nonzero: "reachable_f self \<Longrightarrow> fmax (peak_f self) total_value \<noteq> Fin 0"
proof -
  assume "reachable_f self"
  then have "risk_inv_f self" by (rule reachable_f_inv)
  then show ?thesis
    unfolding risk_inv_f_def
    by (cases total_value) (auto simp: fmax_PInf fmax_Fin max_def INITIAL_CASH_def split: if_splits)
qed

lemma fst_check_verdict_f:
  "fst (check_verdict_f total_value positions self) =
     (case fdiv (fsub (fmax (peak_f self) total_value) total_value)
             (fmax (peak_f self) total_value) of
        Inl e \<Rightarrow> Inl e
      | Inr dd \<Rightarrow>
          if fgt dd (max_drawdown_f self) then Inr VetoDrawdown
          else (case exposure_exceeded_f (map snd positions) total_value (max_per_asset_f self) of
                  Inl e \<Rightarrow> Inl e
                | Inr True \<Rightarrow> Inr VetoConcentration
                | Inr False \<Rightarrow>
                    if fgt (fmul (fneg (daily_loss_limit_f self)) (Fin INITIAL_CASH))
                         (today_pnl_f self)
                    then Inr VetoDailyLoss
                    else Inr Allow))"
  unfolding check_verdict_f_def Let_def
  by (simp split: sum.splits bool.splits)




lemma fst_check_f:
  "fst (check_f total_value positions self) =
     (case fst (check_verdict_f total_value positions self) of
        Inl e \<Rightarrow> Inl e | Inr v \<Rightarrow> Inr (v = Allow))"
  by (cases "check_verdict_f total_value positions self")
     (auto simp: check_f_def split: sum.splits)


lemma daily_limit_rnd: "rnd (- (lit_0_04 * INITIAL_CASH)) = Fin (- 40000)"
  using rndp_eqI [of 15 "lit_0_04 * 1000000" 5497558138880000]
  by (simp add: rnd_def lit_0_04_def INITIAL_CASH_def)













text \<open>
  The concentration gate and the daily-loss gate behave over floats as they do over the
  reals.
\<close>

lemma exposure_exceeded_f_True:
  assumes "v \<in> set vs" and "fdiv v total_value = Inr q" and "fgt q cap"
  shows "exposure_exceeded_f vs total_value cap = Inr True"
  using assms(1)
proof (induction vs)
  case Nil
  then show ?case by simp
next
  case (Cons a vs)
  from assms(2) have nz: "total_value \<noteq> Fin 0" using fdiv_error_iff [of v total_value] by auto
  from fdiv_no_error [OF nz, of a] obtain qa where qa: "fdiv a total_value = Inr qa" by blast
  show ?case
  proof (cases "fgt qa cap")
    case True
    with qa show ?thesis by simp
  next
    case False
    with qa assms(2,3) Cons.prems have "v \<in> set vs" by auto
    with Cons.IH qa False show ?thesis by simp
  qed
qed

lemma check_f_concentration_veto:
  assumes "reachable_f self" and "(symbol, v) \<in> set positions"
    and "fdiv v total_value = Inr q" and "fgt q (Fin lit_0_35)"
  shows "fst (check_f total_value positions self) = Inr False"
proof -
  from reachable_f_inv [OF assms(1)] have mp: "max_per_asset_f self = Fin lit_0_35"
    by (simp add: risk_inv_f_def)
  from assms(2) have "v \<in> set (map snd positions)" by force
  from exposure_exceeded_f_True [OF this assms(3,4)]
  have ex: "exposure_exceeded_f (map snd positions) total_value (Fin lit_0_35) = Inr True" .
  from fdiv_no_error [OF reachable_f_peak_nonzero [OF assms(1), of total_value]]
  obtain dd where dd: "fdiv (fsub (fmax (peak_f self) total_value) total_value)
      (fmax (peak_f self) total_value) = Inr dd" by blast
  have "fst (check_verdict_f total_value positions self) = Inr VetoDrawdown
      \<or> fst (check_verdict_f total_value positions self) = Inr VetoConcentration"
    unfolding fst_check_verdict_f dd mp ex by simp
  then show ?thesis unfolding fst_check_f by auto
qed

lemma check_f_daily_loss:
  assumes "reachable_f self"
  shows "fst (check_verdict_f total_value positions self) \<noteq> Inr VetoDailyLoss"
proof -
  from reachable_f_inv [OF assms]
  have dl: "daily_loss_limit_f self = Fin lit_0_04" and pnl: "today_pnl_f self = Fin 0"
    by (simp_all add: risk_inv_f_def)
  have "\<not> fgt (fmul (fneg (Fin lit_0_04)) (Fin INITIAL_CASH)) (Fin 0)"
    by (simp add: daily_limit_rnd)
  then show ?thesis
    unfolding fst_check_verdict_f dl pnl by (simp split: sum.splits bool.splits)
qed

subsection \<open>The drawdown gate\<close>




subsection \<open>The concentration gate\<close>

text \<open>
  Claim C6. In every call to \<open>check\<close> made by a running bot, with any total value and
  any positions: if the value of some symbol divided by the total value is above 0.35,
  \<open>check\<close> returns False.
\<close>

theorem check_concentration_veto:
  assumes "reachable self"
    and "(symbol, v) \<in> set positions"
    and "v / total_value > 35 / 100"
  shows "fst (check total_value positions self) = Inr False"
proof -
  from assms(2) have "v \<in> set (map snd positions)" by force
  with assms(3) have "\<exists>v \<in> set (map snd positions). v / total_value > 35 / 100" by blast
  with fst_check_reachable [OF assms(1), of total_value positions] show ?thesis by simp
qed

theorem check_concentration_veto_witness:
  "reachable RiskManager_init
   \<and> (''BTC/USD'', 400000) \<in> set [(''ETH/USD'', 100000), (''BTC/USD'', 400000 :: real)]
   \<and> 400000 / 1000000 > (35 / 100 :: real)
   \<and> fst (check 1000000 [(''ETH/USD'', 100000), (''BTC/USD'', 400000)] RiskManager_init)
       = Inr False"
  using check_concentration_veto [OF reachable_init,
      of "''BTC/USD''" 400000 "[(''ETH/USD'', 100000), (''BTC/USD'', 400000)]" 1000000]
  by (simp add: reachable_init)

subsection \<open>The high-water mark\<close>

text \<open>
  Claim C8. Over every sequence of calls to \<open>check\<close>, peak is a high-water mark that
  never decreases: a call sets it to the larger of the previous peak and the total value,
  on every path (so also when the call returns False); it grows exactly when the total
  value is above it; and it never falls below the initial cash, its first value.
\<close>

theorem peak_high_water_mark:
  "peak RiskManager_init = INITIAL_CASH
   \<and> snd (check total_value positions self) = self\<lparr>peak := max (peak self) total_value\<rparr>
   \<and> peak self \<le> peak (snd (check total_value positions self))
   \<and> (peak self < peak (snd (check total_value positions self)) \<longleftrightarrow> peak self < total_value)
   \<and> peak self \<le> peak (checks calls self)
   \<and> (reachable self \<longrightarrow> INITIAL_CASH \<le> peak (checks calls self))"
proof -
  have "INITIAL_CASH \<le> peak (checks calls self)" if "reachable self"
    using reachable_inv [OF checks_reachable [OF that, of calls]] by (simp add: risk_inv_def)
  then show ?thesis
    by (simp add: snd_check checks_peak_mono RiskManager_init_def less_max_iff_disj)
qed

theorem peak_high_water_mark_witness:
  "check 2000000 [(''BTC/USD'', 1000000)] RiskManager_init =
       (Inr False, RiskManager_init\<lparr>peak := 2000000\<rparr>)
   \<and> reachable RiskManager_init
   \<and> INITIAL_CASH \<le> peak (checks [(2000000, [(''BTC/USD'', 1000000)]), (500000, [])]
                               RiskManager_init)"
proof -
  note hw = peak_high_water_mark [of 2000000 "[(''BTC/USD'', 1000000)]" RiskManager_init
        "[(2000000, [(''BTC/USD'', 1000000)]), (500000, [])]"]
  have a: "fst (check 2000000 [(''BTC/USD'', 1000000)] RiskManager_init) = Inr False"
    by (simp add: check_def check_verdict_def py_div_def RiskManager_init_def INITIAL_CASH_def)
  have b: "snd (check 2000000 [(''BTC/USD'', 1000000)] RiskManager_init) =
      RiskManager_init\<lparr>peak := 2000000\<rparr>"
    using hw [THEN conjunct2, THEN conjunct1] by (simp add: peak_init)
  have c: "INITIAL_CASH \<le> peak (checks [(2000000, [(''BTC/USD'', 1000000)]), (500000, [])]
                               RiskManager_init)"
    using hw reachable_init by blast
  from a b c reachable_init show ?thesis by (simp add: prod_eq_iff)
qed

subsection \<open>The daily-loss gate\<close>

text \<open>
  Claim C9. Nothing in the program assigns \<open>today_pnl\<close> after the constructor sets it
  to 0: \<open>check\<close> and a whole cycle leave it as it is. So in every state a running
  bot reaches it is 0, the daily-loss condition \<open>today_pnl < - 0.04 * INITIAL_CASH\<close> is
  false, and \<open>check\<close> never returns False through the daily-loss rule.
\<close>

theorem daily_loss_never_vetoes:
  "today_pnl (snd (check total_value positions rm)) = today_pnl rm
   \<and> today_pnl (risk (snd (step cfg env self))) = today_pnl (risk self)
   \<and> (bot_reachable cfg self \<longrightarrow>
        today_pnl (risk self) = 0
        \<and> \<not> today_pnl (risk self) < - daily_loss_limit (risk self) * INITIAL_CASH
        \<and> fst (check_verdict total_value positions (risk self)) \<noteq> Inr VetoDailyLoss)"
proof -
  have a: "today_pnl (snd (check tv ps r)) = today_pnl r" for tv ps r
    by (simp add: snd_check)
  have b: "today_pnl (risk (snd (step cfg env self))) = today_pnl (risk self)"
    using step_risk [of cfg env self] a by auto
  have c: "today_pnl (risk self) = 0
        \<and> \<not> today_pnl (risk self) < - daily_loss_limit (risk self) * INITIAL_CASH
        \<and> fst (check_verdict total_value positions (risk self)) \<noteq> Inr VetoDailyLoss"
    if "bot_reachable cfg self"
  proof -
    have r: "reachable (risk self)" using that by (rule bot_reachable_risk)
    have "risk_inv (risk self)" using r by (rule reachable_inv)
    then have "today_pnl (risk self) = 0"
      and "\<not> today_pnl (risk self) < - daily_loss_limit (risk self) * INITIAL_CASH"
      by (simp_all add: risk_inv_def INITIAL_CASH_def)
    moreover have "fst (check_verdict total_value positions (risk self)) \<noteq> Inr VetoDailyLoss"
      unfolding check_verdict_reachable [OF r] by simp
    ultimately show ?thesis by simp
  qed
  from a b c show ?thesis by blast
qed

theorem daily_loss_never_vetoes_witness:
  "bot_reachable cfg_forced (snd (step cfg_forced env_offline bot_init))
   \<and> today_pnl (risk (snd (step cfg_forced env_offline bot_init))) = 0
   \<and> fst (check_verdict 0 [] (risk (snd (step cfg_forced env_offline bot_init))))
       \<noteq> Inr VetoDailyLoss"
proof -
  have "bot_reachable cfg_forced (snd (step cfg_forced env_offline bot_init))"
    by (rule bot_reachable_step) (rule bot_reachable_init)
  then show ?thesis
    using daily_loss_never_vetoes [of 0 "[]" _ cfg_forced env_offline
        "snd (step cfg_forced env_offline bot_init)"]
    by blast
qed

subsection \<open>Division by zero in the risk manager\<close>




subsection \<open>The cap of the rebalance step\<close>














subsection \<open>The momentum target\<close>

lemma momentum_targets_mem:
  "momentum_targets cfg env m positions symbols = Inr targets \<Longrightarrow>
   (symbol, t) \<in> set targets \<Longrightarrow>
   \<exists>current_usd ret. symbol \<in> set symbols \<and> dict_get positions symbol = Inr current_usd
      \<and> momentum_ret cfg env m symbol = Inr ret
      \<and> t = momentum_target current_usd ret"
proof (induction symbols arbitrary: targets)
  case Nil
  then show ?case by simp
next
  case (Cons s symbols)
  then show ?case by (auto split: sum.splits)
qed

lemma momentum_targets_exact:
  "momentum_targets cfg env m positions symbols = Inr targets \<Longrightarrow>
   targets = map (\<lambda>s. (s, projr (dict_get positions s)
                          + projr (momentum_ret cfg env m s) * 10000 * 100)) symbols
   \<and> (\<forall>s \<in> set symbols. (\<exists>c. dict_get positions s = Inr c)
                        \<and> (\<exists>r. momentum_ret cfg env m s = Inr r))"
proof (induction symbols arbitrary: targets)
  case Nil
  then show ?case by simp
next
  case (Cons s symbols)
  from Cons.prems obtain r c ts where r: "momentum_ret cfg env m s = Inr r"
    and c: "dict_get positions s = Inr c"
    and ts: "momentum_targets cfg env m positions symbols = Inr ts"
    and t: "targets = (s, momentum_target c r) # ts"
    by (auto split: sum.splits)
  from Cons.IH [OF ts] r c t show ?case
    by (simp add: momentum_target_def BASE_PER_PERCENT_def)
qed

lemma momentum_targets_total:
  "(\<forall>s \<in> set symbols. (\<exists>c. dict_get positions s = Inr c)
                      \<and> (\<exists>r. momentum_ret cfg env m s = Inr r)) \<Longrightarrow>
   \<exists>targets. momentum_targets cfg env m positions symbols = Inr targets"
  by (induction symbols) auto

text \<open>
  Claim C3. For every symbol and every return \<open>r\<close> (a fraction), the momentum target
  of the cycle is the current value of the position plus \<open>r\<close> times
  \<open>BASE_PER_PERCENT\<close> times 100, where \<open>BASE_PER_PERCENT\<close> is 10,000: a return
  of 0.01 puts the target exactly 10,000 above the current value. The loop of the cycle
  returns one target for every symbol, in the order of the symbols, and it returns them
  whenever every symbol has a position and a return.
\<close>

theorem momentum_target_scaling:
  "BASE_PER_PERCENT = 10000
   \<and> momentum_target current_usd r = current_usd + r * BASE_PER_PERCENT * 100
   \<and> momentum_target current_usd (1 / 100) - current_usd = 10000
   \<and> (momentum_targets cfg env m positions symbols = Inr targets
        \<longrightarrow> targets = map (\<lambda>s. (s, projr (dict_get positions s)
                                   + projr (momentum_ret cfg env m s) * 10000 * 100)) symbols
          \<and> (\<forall>s \<in> set symbols. (\<exists>c. dict_get positions s = Inr c)
                              \<and> (\<exists>ret. momentum_ret cfg env m s = Inr ret)))
   \<and> (momentum_targets cfg env m positions symbols = Inr targets \<and> (symbol, t) \<in> set targets
        \<longrightarrow> (\<exists>c ret. dict_get positions symbol = Inr c
               \<and> momentum_ret cfg env m symbol = Inr ret
               \<and> t = c + ret * 10000 * 100))
   \<and> ((\<forall>s \<in> set symbols. (\<exists>c. dict_get positions s = Inr c)
                         \<and> (\<exists>ret. momentum_ret cfg env m s = Inr ret))
        \<longrightarrow> (\<exists>ts. momentum_targets cfg env m positions symbols = Inr ts))"
proof -
  have a: "\<exists>c ret. dict_get positions symbol = Inr c \<and> momentum_ret cfg env m symbol = Inr ret
               \<and> t = c + ret * 10000 * 100"
    if "momentum_targets cfg env m positions symbols = Inr targets \<and> (symbol, t) \<in> set targets"
    using momentum_targets_mem [of cfg env m positions symbols targets symbol t] that
    by (auto simp: momentum_target_def BASE_PER_PERCENT_def)
  note b = momentum_targets_exact [of cfg env m positions symbols targets]
  note c = momentum_targets_total [of symbols positions cfg env m]
  have d: "BASE_PER_PERCENT = 10000
      \<and> momentum_target current_usd r = current_usd + r * BASE_PER_PERCENT * 100
      \<and> momentum_target current_usd (1 / 100) - current_usd = 10000"
    by (simp add: momentum_target_def BASE_PER_PERCENT_def)
  from a b c d show ?thesis by blast
qed

theorem momentum_target_scaling_witness:
  "momentum_targets cfg_live env_online MockMarket_init
       [(''BTC/USD'', 136000), (''ETH/USD'', 52500)] [''BTC/USD'', ''ETH/USD'']
     = Inr [(''BTC/USD'', 146000), (''ETH/USD'', 62500)]
   \<and> (''BTC/USD'', 146000) \<in> set [(''BTC/USD'', 146000), (''ETH/USD'', 62500 :: real)]
   \<and> momentum_ret cfg_live env_online MockMarket_init ''BTC/USD'' = Inr (1 / 100)
   \<and> (\<exists>c ret. dict_get [(''BTC/USD'', 136000), (''ETH/USD'', 52500)] ''BTC/USD'' = Inr c
          \<and> momentum_ret cfg_live env_online MockMarket_init ''BTC/USD'' = Inr ret
          \<and> 146000 = c + ret * 10000 * 100)
   \<and> [(''BTC/USD'', 146000), (''ETH/USD'', 62500)] =
       map (\<lambda>s. (s, projr (dict_get [(''BTC/USD'', 136000), (''ETH/USD'', 52500)] s)
                    + projr (momentum_ret cfg_live env_online MockMarket_init s) * 10000 * 100))
         [''BTC/USD'', ''ETH/USD'']"
proof -
  note inst = momentum_target_scaling [where cfg = cfg_live and env = env_online
      and m = MockMarket_init and positions = "[(''BTC/USD'', 136000), (''ETH/USD'', 52500)]"
      and symbols = "[''BTC/USD'', ''ETH/USD'']"
      and targets = "[(''BTC/USD'', 146000), (''ETH/USD'', 62500)]"
      and symbol = "''BTC/USD''" and t = 146000]
  have r: "momentum_ret cfg_live env_online MockMarket_init s = Inr (1 / 100)" for s
    by (simp add: momentum_ret_def cfg_live_def env_online_def py_div_def)
  have t: "momentum_targets cfg_live env_online MockMarket_init
       [(''BTC/USD'', 136000), (''ETH/USD'', 52500)] [''BTC/USD'', ''ETH/USD'']
     = Inr [(''BTC/USD'', 146000), (''ETH/USD'', 62500)]"
    by (simp add: r dict_get_def momentum_target_def BASE_PER_PERCENT_def)
  have m: "(''BTC/USD'', 146000) \<in> set [(''BTC/USD'', 146000), (''ETH/USD'', 62500 :: real)]"
    by simp
  from inst t m
  have e: "\<exists>c ret. dict_get [(''BTC/USD'', 136000), (''ETH/USD'', 52500)] ''BTC/USD'' = Inr c
          \<and> momentum_ret cfg_live env_online MockMarket_init ''BTC/USD'' = Inr ret
          \<and> 146000 = c + ret * 10000 * 100"
    by blast
  from inst t
  have x: "[(''BTC/USD'', 146000), (''ETH/USD'', 62500)] =
       map (\<lambda>s. (s, projr (dict_get [(''BTC/USD'', 136000), (''ETH/USD'', 52500)] s)
                    + projr (momentum_ret cfg_live env_online MockMarket_init s) * 10000 * 100))
         [''BTC/USD'', ''ETH/USD'']"
    by blast
  from t m r e x show ?thesis by blast
qed

subsection \<open>The dead-band\<close>

lemma rebalance_sym_events:
  assumes "rebalance_sym cfg env total_value prices' positions symbol target_usd = Inr evs"
    and "ev \<in> set evs"
  shows "\<exists>current_usd price. dict_get positions symbol = Inr current_usd
          \<and> dict_get prices' symbol = Inr price \<and> price \<noteq> 0
          \<and> \<bar>cap_diff total_value current_usd (target_usd - current_usd)\<bar> > 500
          \<and> ev \<in> set (place_order cfg env symbol
                (if cap_diff total_value current_usd (target_usd - current_usd) / price > 0
                 then ''buy'' else ''sell'')
                (cap_diff total_value current_usd (target_usd - current_usd) / price))"
  using assms unfolding rebalance_sym_def Let_def py_div_def
  by (auto split: sum.splits if_splits)

lemma rebalance_events:
  assumes "ev \<in> set (snd (rebalance cfg env total_value prices' positions targets))"
  shows "\<exists>symbol target_usd evs. (symbol, target_usd) \<in> set targets
          \<and> rebalance_sym cfg env total_value prices' positions symbol target_usd = Inr evs
          \<and> ev \<in> set evs"
  using assms
proof (induction targets)
  case Nil
  then show ?case by simp
next
  case (Cons a targets)
  obtain symbol target_usd where a: "a = (symbol, target_usd)" by (cases a)
  show ?case
  proof (cases "rebalance_sym cfg env total_value prices' positions symbol target_usd")
    case (Inl e)
    with Cons.prems a show ?thesis by simp
  next
    case (Inr evs)
    with Cons.prems a
    have "ev \<in> set evs \<or> ev \<in> set (snd (rebalance cfg env total_value prices' positions targets))"
      by (auto split: prod.splits)
    then show ?thesis
    proof
      assume "ev \<in> set evs"
      with Inr a show ?thesis by auto
    next
      assume "ev \<in> set (snd (rebalance cfg env total_value prices' positions targets))"
      from Cons.IH [OF this] show ?thesis by auto
    qed
  qed
qed

lemma place_order_quantity:
  assumes "ev \<in> set (place_order cfg env symbol side amount)"
  shows "ev = DryOrder symbol side \<bar>amount\<bar> \<or> ev = LiveOrder symbol side \<bar>amount\<bar>
       \<or> (\<exists>e. ev = OrderFailed symbol e)"
  using assms unfolding place_order_def by (auto split: if_splits sum.splits)

text \<open>
  Claim C7. In every cycle and for every symbol, the rebalance step emits no order when
  the difference after the cap is at most 500 in absolute value: every order that the
  loop hands to \<open>place_order\<close> comes from a symbol whose difference after the cap is
  above 500 in absolute value, and the value of the order (its quantity at the symbol's
  price) is that difference.
\<close>

theorem rebalance_dead_band:
  "(dict_get positions symbol = Inr current_usd
      \<and> \<bar>cap_diff total_value current_usd (target_usd - current_usd)\<bar> \<le> 500
     \<longrightarrow> rebalance_sym cfg env total_value prices' positions symbol target_usd = Inr [])
   \<and> (ev \<in> set (snd (rebalance cfg env total_value prices' positions targets))
     \<longrightarrow> (\<exists>s t c price. (s, t) \<in> set targets
            \<and> dict_get positions s = Inr c \<and> dict_get prices' s = Inr price \<and> price \<noteq> 0
            \<and> \<bar>cap_diff total_value c (t - c)\<bar> > 500
            \<and> ev \<in> set (place_order cfg env s
                  (if cap_diff total_value c (t - c) / price > 0 then ''buy'' else ''sell'')
                  (cap_diff total_value c (t - c) / price))
            \<and> (\<forall>side q. ev = DryOrder s side q \<or> ev = LiveOrder s side q
                  \<longrightarrow> q * \<bar>price\<bar> = \<bar>cap_diff total_value c (t - c)\<bar>)))"
proof (intro conjI impI)
  assume "dict_get positions symbol = Inr current_usd
      \<and> \<bar>cap_diff total_value current_usd (target_usd - current_usd)\<bar> \<le> 500"
  then show "rebalance_sym cfg env total_value prices' positions symbol target_usd = Inr []"
    by (simp add: rebalance_sym_def Let_def)
next
  assume "ev \<in> set (snd (rebalance cfg env total_value prices' positions targets))"
  from rebalance_events [OF this]
  obtain s t evs where st: "(s, t) \<in> set targets"
    and r: "rebalance_sym cfg env total_value prices' positions s t = Inr evs"
    and ev: "ev \<in> set evs" by blast
  from rebalance_sym_events [OF r ev]
  obtain c price where c: "dict_get positions s = Inr c"
    and p: "dict_get prices' s = Inr price" and p0: "price \<noteq> 0"
    and band: "\<bar>cap_diff total_value c (t - c)\<bar> > 500"
    and mem: "ev \<in> set (place_order cfg env s
                  (if cap_diff total_value c (t - c) / price > 0 then ''buy'' else ''sell'')
                  (cap_diff total_value c (t - c) / price))"
    by blast
  have val: "q * \<bar>price\<bar> = \<bar>cap_diff total_value c (t - c)\<bar>"
    if "ev = DryOrder s side q \<or> ev = LiveOrder s side q" for side q
  proof -
    from place_order_quantity [OF mem] that
    have "q = \<bar>cap_diff total_value c (t - c) / price\<bar>" by auto
    with p0 show ?thesis by simp
  qed
  from st c p p0 band mem val
  show "\<exists>s t c price. (s, t) \<in> set targets
            \<and> dict_get positions s = Inr c \<and> dict_get prices' s = Inr price \<and> price \<noteq> 0
            \<and> \<bar>cap_diff total_value c (t - c)\<bar> > 500
            \<and> ev \<in> set (place_order cfg env s
                  (if cap_diff total_value c (t - c) / price > 0 then ''buy'' else ''sell'')
                  (cap_diff total_value c (t - c) / price))
            \<and> (\<forall>side q. ev = DryOrder s side q \<or> ev = LiveOrder s side q
                  \<longrightarrow> q * \<bar>price\<bar> = \<bar>cap_diff total_value c (t - c)\<bar>)"
    by blast
qed

theorem rebalance_dead_band_witness:
  "dict_get [(''BTC/USD'', 136000)] ''BTC/USD'' = Inr 136000
   \<and> \<bar>cap_diff 1000000 136000 (136400 - 136000)\<bar> \<le> 500
   \<and> rebalance_sym cfg_forced env_offline 1000000 [(''BTC/USD'', 68000)]
        [(''BTC/USD'', 136000)] ''BTC/USD'' 136400 = Inr []
   \<and> rebalance cfg_forced env_offline 1000000 [(''BTC/USD'', 68000)]
        [(''BTC/USD'', 136000)] [(''BTC/USD'', 146000)]
       = (Inr (), [DryOrder ''BTC/USD'' ''buy'' (5 / 34)])
   \<and> (5 / 34) * \<bar>68000\<bar> = \<bar>cap_diff 1000000 136000 (146000 - 136000)\<bar>
   \<and> \<bar>cap_diff 1000000 136000 (146000 - 136000)\<bar> > 500"
proof -
  have a: "dict_get [(''BTC/USD'', 136000)] ''BTC/USD'' = Inr 136000"
    by (simp add: dict_get_def)
  have b: "\<bar>cap_diff 1000000 136000 (136400 - 136000)\<bar> \<le> 500"
    by (simp add: cap_diff_def)
  have c: "rebalance_sym cfg_forced env_offline 1000000 [(''BTC/USD'', 68000)]
        [(''BTC/USD'', 136000)] ''BTC/USD'' 136400 = Inr []"
    using rebalance_dead_band [of "[(''BTC/USD'', 136000)]" "''BTC/USD''" 136000 1000000 136400
        cfg_forced env_offline "[(''BTC/USD'', 68000)]"] a b
    by blast
  have d: "rebalance cfg_forced env_offline 1000000 [(''BTC/USD'', 68000)]
        [(''BTC/USD'', 136000)] [(''BTC/USD'', 146000)]
       = (Inr (), [DryOrder ''BTC/USD'' ''buy'' (5 / 34)])"
    by (simp add: rebalance_sym_def dict_get_def cap_diff_def py_div_def place_order_def
          cfg_forced_def)
  have m: "DryOrder ''BTC/USD'' ''buy'' (5 / 34) \<in>
      set (snd (rebalance cfg_forced env_offline 1000000 [(''BTC/USD'', 68000)]
        [(''BTC/USD'', 136000)] [(''BTC/USD'', 146000)]))"
    unfolding d by simp
  from rebalance_dead_band [where ev = "DryOrder ''BTC/USD'' ''buy'' (5 / 34)"
      and cfg = cfg_forced and env = env_offline and total_value = 1000000
      and prices' = "[(''BTC/USD'', 68000)]" and positions = "[(''BTC/USD'', 136000)]"
      and targets = "[(''BTC/USD'', 146000)]"] m
  obtain s t c price where st: "(s, t) \<in> set [(''BTC/USD'', 146000 :: real)]"
    and cc: "dict_get [(''BTC/USD'', 136000)] s = Inr c"
    and pp: "dict_get [(''BTC/USD'', 68000)] s = Inr price"
    and band: "\<bar>cap_diff 1000000 c (t - c)\<bar> > 500"
    and val: "\<forall>side q. DryOrder ''BTC/USD'' ''buy'' (5 / 34) = DryOrder s side q
                \<or> DryOrder ''BTC/USD'' ''buy'' (5 / 34) = LiveOrder s side q
              \<longrightarrow> q * \<bar>price\<bar> = \<bar>cap_diff 1000000 c (t - c)\<bar>"
    by blast
  from st have s: "s = ''BTC/USD''" and t: "t = 146000" by simp_all
  from cc pp have c': "c = 136000" and p': "price = 68000"
    unfolding s by (simp_all add: dict_get_def)
  from val [rule_format, of "''buy''" "5 / 34"]
  have e: "(5 / 34) * \<bar>68000\<bar> = \<bar>cap_diff 1000000 136000 (146000 - 136000)\<bar>"
    unfolding s t c' p' by simp
  from band have f: "\<bar>cap_diff 1000000 136000 (146000 - 136000)\<bar> > 500"
    unfolding t c' .
  from a b c d e f show ?thesis by blast
qed

subsection \<open>Exceptions of a cycle\<close>

lemma step_returns: "fst (step cfg env self) = Inr ()"
  unfolding step_def by (simp split: prod.splits sum.splits)

lemma run_completes: "fst (run cfg envs self) = Inr (length envs)"
proof (induction envs arbitrary: self)
  case Nil
  show ?case by simp
next
  case (Cons env envs)
  obtain r s where rs: "step cfg env self = (r, s)" by (cases "step cfg env self")
  with step_returns [of cfg env self] have r: "r = Inr ()" by simp
  obtain r' s' where rs': "run cfg envs s = (r', s')" by (cases "run cfg envs s")
  with Cons.IH [of s] have "r' = Inr (length envs)" by simp
  with rs r rs' show ?case by simp
qed

text \<open>
  Claim C5. In every cycle, whatever exception a collaborator raises (fetching a price,
  the balance or the momentum data, or submitting an order), \<open>step\<close> returns
  normally: an exception that leaves the body is logged and not passed on to the
  caller, so the loop of \<open>run\<close> goes on to the next cycle.
\<close>

theorem step_never_raises:
  "fst (step cfg env self) = Inr ()
   \<and> (step_body cfg env self = (Inl e, self')
        \<longrightarrow> step cfg env self = (Inr (), self'\<lparr>logged := logged self' @ [StepError e]\<rparr>))
   \<and> fst (run cfg envs self) = Inr (length envs)"
  by (simp add: step_returns run_completes) (simp add: step_def)

theorem step_never_raises_witness:
  "step_body cfg_live env_zero_quote bot_init = (Inl ZeroDivisionError, bot_init)
   \<and> step cfg_live env_zero_quote bot_init =
       (Inr (), bot_init\<lparr>logged := [StepError ZeroDivisionError]\<rparr>)
   \<and> fst (run cfg_live [env_zero_quote, env_offline, env_online] bot_init) = Inr 3"
proof -
  let ?zeros = "[(''BTC/USD'', 0), (''ETH/USD'', 0), (''SOL/USD'', 0 :: real)]"
  have fp: "fetch_price cfg_live env_zero_quote symbol m = (Inr 0, m)" for symbol m
    by (simp add: fetch_price_def cfg_live_def env_zero_quote_def)
  have fps: "fetch_prices cfg_live env_zero_quote SYMBOLS MockMarket_init =
      (Inr ?zeros, MockMarket_init)"
    by (simp add: SYMBOLS_def fp)
  have mr: "momentum_ret cfg_live env_zero_quote m symbol = Inr (1 / 100)" for symbol m
    by (simp add: momentum_ret_def cfg_live_def env_zero_quote_def py_div_def)
  have bal: "get_balance cfg_live env_zero_quote = [''USD'' \<mapsto> 1000000, ''BTC'' \<mapsto> 2]"
    by (auto simp: get_balance_def cfg_live_def env_zero_quote_def RoostooClient_get_balance_def)
  have usd: "balance_get (get_balance cfg_live env_zero_quote) ''USD'' = 1000000"
    by (simp add: bal balance_get_def)
  have pos: "positions_of (get_balance cfg_live env_zero_quote) ?zeros SYMBOLS = Inr ?zeros"
    by (simp add: SYMBOLS_def dict_get_def)
  have ck: "check 1000000 ?zeros RiskManager_init = (Inr True, RiskManager_init)"
    by (simp add: check_def check_verdict_def py_div_def RiskManager_init_def INITIAL_CASH_def)
  have mt: "momentum_targets cfg_live env_zero_quote MockMarket_init ?zeros SYMBOLS =
      Inr [(''BTC/USD'', 10000), (''ETH/USD'', 10000), (''SOL/USD'', 10000)]"
    by (simp add: SYMBOLS_def mr dict_get_def momentum_target_def BASE_PER_PERCENT_def)
  have lr: "logged_returns MockMarket_init SYMBOLS = Inr [0, 0, 0]"
    by (simp add: SYMBOLS_def get_return_def dict_get_def MockMarket_init_def py_div_def)
  have rb: "rebalance cfg_live env_zero_quote 1000000 ?zeros ?zeros
       [(''BTC/USD'', 10000), (''ETH/USD'', 10000), (''SOL/USD'', 10000)]
      = (Inl ZeroDivisionError, [])"
    by (simp add: rebalance_sym_def dict_get_def cap_diff_def py_div_def)
  have body: "step_body cfg_live env_zero_quote bot_init = (Inl ZeroDivisionError, bot_init)"
    unfolding step_body_def
    by (simp add: bot_init_def fps usd pos ck mt lr rb del: rebalance.simps)
  have lg: "logged bot_init = []" by (simp add: bot_init_def)
  from step_never_raises [of cfg_live env_zero_quote bot_init ZeroDivisionError bot_init
      "[env_zero_quote, env_offline, env_online]"] body
  show ?thesis by (simp add: lg del: run.simps)
qed

subsection \<open>Price resolution\<close>

lemma update_forced:
  "update (uniform env_offline) MockMarket_init =
     \<lparr>prices = [(''BTC/USD'', 68680), (''ETH/USD'', 3535), (''SOL/USD'', 909 / 5)],
      prev_prices = [(''BTC/USD'', 68000), (''ETH/USD'', 3500), (''SOL/USD'', 180)],
      draws = 3\<rparr>"
  by (simp add: update_def MockMarket_init_def env_offline_def)

text \<open>
  Claim C2, as stated: resolving prices is independent of the order and has no side
  effect, for any two distinct symbols and in every mode, forced fallback included. It
  fails there: every call that uses the simulator first moves all its prices. With every
  draw at 0.01, ETH/USD resolves to 3535 when asked first and to 3570.35 when asked after
  BTC/USD, and the simulator is not the one the call started from.
\<close>

theorem fetch_price_order_counterexample:
  "fst (fetch_price cfg_forced env_offline ''ETH/USD'' MockMarket_init) = Inr 3535
   \<and> fst (fetch_price cfg_forced env_offline ''ETH/USD''
            (snd (fetch_price cfg_forced env_offline ''BTC/USD'' MockMarket_init)))
       = Inr (71407 / 20)
   \<and> fst (fetch_price cfg_forced env_offline ''ETH/USD''
            (snd (fetch_price cfg_forced env_offline ''BTC/USD'' MockMarket_init)))
       \<noteq> fst (fetch_price cfg_forced env_offline ''ETH/USD'' MockMarket_init)
   \<and> snd (fetch_price cfg_forced env_offline ''BTC/USD'' MockMarket_init) \<noteq> MockMarket_init"
proof -
  have a: "fetch_price cfg_forced env_offline symbol MockMarket_init =
      (get_price (update (uniform env_offline) MockMarket_init) symbol,
       update (uniform env_offline) MockMarket_init)" for symbol
    by (simp add: fetch_price_def cfg_forced_def Let_def)
  have b: "fst (fetch_price cfg_forced env_offline ''ETH/USD''
      (update (uniform env_offline) MockMarket_init)) = Inr (71407 / 20)"
    unfolding update_forced
    by (simp add: fetch_price_def cfg_forced_def Let_def update_def env_offline_def
          get_price_def dict_get_def)
  have c: "get_price (update (uniform env_offline) MockMarket_init) ''ETH/USD'' = Inr 3535"
    unfolding update_forced by (simp add: get_price_def dict_get_def)
  have d: "update (uniform env_offline) MockMarket_init \<noteq> MockMarket_init"
    unfolding update_forced by (simp add: MockMarket_init_def)
  from a b c d show ?thesis by simp
qed

text \<open>
  Claim C2, amended. With forced fallback off and Horus answering for both of two
  symbols, \<open>fetch_price\<close> returns the quoted price of each, in either order, and
  leaves the simulator as it was. When the simulator is used (forced fallback, or
  Horus failing for the symbol), \<open>fetch_price\<close> first updates the simulator, which
  moves the price of every symbol, and returns the symbol's price after that update.
\<close>

theorem fetch_price_primary_independent:
  "(\<not> FORCE_HORUS_422 cfg
     \<and> get_latest_price env (asset_of a) = Inr pa \<and> get_latest_price env (asset_of b) = Inr pb
     \<longrightarrow> fetch_price cfg env a m = (Inr pa, m)
       \<and> fetch_price cfg env b m = (Inr pb, m)
       \<and> fetch_price cfg env b (snd (fetch_price cfg env a m)) = (Inr pb, m)
       \<and> fetch_price cfg env a (snd (fetch_price cfg env b m)) = (Inr pa, m))
   \<and> (FORCE_HORUS_422 cfg \<or> (\<exists>e. get_latest_price env (asset_of a) = Inl e)
     \<longrightarrow> fetch_price cfg env a m =
           (get_price (update (uniform env) m) a, update (uniform env) m))"
  by (auto simp: fetch_price_def Let_def)

theorem fetch_price_primary_independent_witness:
  "\<not> FORCE_HORUS_422 cfg_live
   \<and> get_latest_price env_online (asset_of ''BTC/USD'') = Inr 68000
   \<and> get_latest_price env_online (asset_of ''ETH/USD'') = Inr 68000
   \<and> fetch_price cfg_live env_online ''ETH/USD''
        (snd (fetch_price cfg_live env_online ''BTC/USD'' MockMarket_init))
       = (Inr 68000, MockMarket_init)
   \<and> FORCE_HORUS_422 cfg_forced
   \<and> fetch_price cfg_forced env_online ''BTC/USD'' MockMarket_init =
       (get_price (update (uniform env_online) MockMarket_init) ''BTC/USD'',
        update (uniform env_online) MockMarket_init)"
proof -
  have a: "\<not> FORCE_HORUS_422 cfg_live" and b: "FORCE_HORUS_422 cfg_forced"
    by (simp_all add: cfg_live_def cfg_forced_def)
  have c: "get_latest_price env_online x = Inr 68000" for x
    by (simp add: env_online_def)
  from fetch_price_primary_independent [of cfg_live env_online "''BTC/USD''" 68000
      "''ETH/USD''" 68000 MockMarket_init] a c
  have d: "fetch_price cfg_live env_online ''ETH/USD''
        (snd (fetch_price cfg_live env_online ''BTC/USD'' MockMarket_init))
       = (Inr 68000, MockMarket_init)" by blast
  from fetch_price_primary_independent [of cfg_forced env_online "''BTC/USD''" 68000
      "''ETH/USD''" 68000 MockMarket_init] b
  have e: "fetch_price cfg_forced env_online ''BTC/USD'' MockMarket_init =
       (get_price (update (uniform env_online) MockMarket_init) ''BTC/USD'',
        update (uniform env_online) MockMarket_init)" by blast
  from a b c d e show ?thesis by blast
qed

end
